theory Spec2Isabelle
  imports Complex_Main "HOL-Library.Multiset"
begin

section \<open>Strings\<close>

text \<open>
  A Python \<open>str\<close> is modelled as a \<open>string\<close>, each \<open>char\<close> read as one code point in the
  range U+0000..U+00FF. Code points above U+00FF are outside the model.
\<close>

definition code :: "char \<Rightarrow> nat" where
  "code c = of_char c"

text \<open>The regular expression class \<open>\w\<close> of a \<open>str\<close> pattern, on the code points below 256.\<close>

definition is_word_char :: "char \<Rightarrow> bool" where
  "is_word_char c =
     (let n = code c in
        (48 \<le> n \<and> n \<le> 57) \<or> (65 \<le> n \<and> n \<le> 90) \<or> n = 95 \<or> (97 \<le> n \<and> n \<le> 122)
        \<or> n = 170 \<or> n = 178 \<or> n = 179 \<or> n = 181 \<or> n = 185 \<or> n = 186
        \<or> (188 \<le> n \<and> n \<le> 190) \<or> (192 \<le> n \<and> n \<le> 214)
        \<or> (216 \<le> n \<and> n \<le> 246) \<or> (248 \<le> n \<and> n \<le> 255))"

text \<open>The characters \<open>str.strip()\<close> removes, on the code points below 256.\<close>

definition is_space :: "char \<Rightarrow> bool" where
  "is_space c =
     (let n = code c in (9 \<le> n \<and> n \<le> 13) \<or> (28 \<le> n \<and> n \<le> 32) \<or> n = 133 \<or> n = 160)"

definition strip :: "string \<Rightarrow> string" where
  "strip s = rev (dropWhile is_space (rev (dropWhile is_space s)))"

section \<open>sanitize\_filename\<close>

text \<open>The character class \<open>[\w.-]\<close>; its complement is what the pattern \<open>[^\w.-]+\<close> matches.\<close>

definition allowed :: "char \<Rightarrow> bool" where
  "allowed c = (is_word_char c \<or> c = CHR ''.'' \<or> c = CHR ''-'')"

text \<open>
  \<open>re.sub(r"[^\w.-]+", "_", s)\<close>: scanning from the left, every maximal run of characters
  outside the class is replaced by one underscore.
\<close>

function sub_runs :: "string \<Rightarrow> string" where
  "sub_runs [] = []"
| "sub_runs (c # cs) =
     (if allowed c then c # sub_runs cs
      else CHR ''_'' # sub_runs (dropWhile (\<lambda>d. \<not> allowed d) cs))"
  by pat_completeness auto
termination
  by (relation "measure length") (auto simp: length_dropWhile_le less_Suc_eq_le)

definition sanitize_filename :: "string \<Rightarrow> string" where
  "sanitize_filename handle =
     (let sanitized = sub_runs (strip handle)
      in if sanitized = [] then ''contact'' else sanitized)"



section \<open>Python values, errors and integer coercion\<close>

datatype pyerror =
  TypeError | ValueError | OverflowError | ZeroDivisionError
  | FileExistsError | FileNotFoundError | IsADirectoryError | NotADirectoryError
  | SameFileError

text \<open>Exceptions are values: a computation returns \<open>Inl e\<close> where the Python raises \<open>e\<close>.\<close>

definition bind_err :: "'e + 'a \<Rightarrow> ('a \<Rightarrow> 'e + 'b) \<Rightarrow> 'e + 'b" where
  "bind_err r f = (case r of Inl e \<Rightarrow> Inl e | Inr x \<Rightarrow> f x)"

text \<open>
  A Python \<open>float\<close> is a finite value (a rational; every binary64 number is one), an
  infinity or a NaN. The values a column of a \<open>sqlite3.Row\<close> can hold are \<open>None\<close>, an
  \<open>int\<close>, a \<open>float\<close>, a \<open>str\<close> or a \<open>bytes\<close> object.
\<close>

datatype pyfloat = Finite rat | PosInf | NegInf | NaN

datatype pyvalue = PyNone | PyInt int | PyFloat pyfloat | PyStr string | PyBytes string

definition trunc :: "rat \<Rightarrow> int" where
  "trunc q = (if 0 \<le> q then \<lfloor>q\<rfloor> else \<lceil>q\<rceil>)"

definition is_digit :: "char \<Rightarrow> bool" where
  "is_digit c = (48 \<le> code c \<and> code c \<le> 57)"

text \<open>The blanks \<open>int()\<close> skips around a \<open>str\<close> literal, and around a \<open>bytes\<close> literal.\<close>

definition is_int_space :: "char \<Rightarrow> bool" where
  "is_int_space c = (let n = code c in (9 \<le> n \<and> n \<le> 13) \<or> n = 32 \<or> n = 133 \<or> n = 160)"

definition is_ascii_space :: "char \<Rightarrow> bool" where
  "is_ascii_space c = (let n = code c in (9 \<le> n \<and> n \<le> 13) \<or> n = 32)"

text \<open>Digits with single underscores between them: \<open>1_000\<close>, not \<open>_1\<close>, \<open>1_\<close> or \<open>1__0\<close>.\<close>

fun valid_digits :: "string \<Rightarrow> bool" where
  "valid_digits [] = False"
| "valid_digits [c] = is_digit c"
| "valid_digits (c # d # r) =
     (is_digit c \<and> (if d = CHR ''_'' then r \<noteq> [] \<and> valid_digits r else valid_digits (d # r)))"

fun int_of_digits :: "int \<Rightarrow> string \<Rightarrow> int" where
  "int_of_digits acc [] = acc"
| "int_of_digits acc (c # cs) = int_of_digits (10 * acc + (int (code c) - 48)) cs"

definition int_max_str_digits :: nat where
  "int_max_str_digits = 4300"

text \<open>
  \<open>int(s)\<close> for a text \<open>s\<close>, base ten: blanks stripped, an optional sign, then the digits.
  More than \<open>int_max_str_digits\<close> digits raise ValueError (the interpreter's default limit).
\<close>

definition int_of_text :: "(char \<Rightarrow> bool) \<Rightarrow> string \<Rightarrow> pyerror + int" where
  "int_of_text blank s =
     (let t = rev (dropWhile blank (rev (dropWhile blank s)));
          neg = (t \<noteq> [] \<and> hd t = CHR ''-'');
          body = (if t \<noteq> [] \<and> (hd t = CHR ''-'' \<or> hd t = CHR ''+'') then tl t else t);
          ds = filter is_digit body
      in if valid_digits body \<and> length ds \<le> int_max_str_digits
         then Inr (if neg then - int_of_digits 0 ds else int_of_digits 0 ds)
         else Inl ValueError)"

fun py_int :: "pyvalue \<Rightarrow> pyerror + int" where
  "py_int PyNone = Inl TypeError"
| "py_int (PyInt i) = Inr i"
| "py_int (PyFloat (Finite q)) = Inr (trunc q)"
| "py_int (PyFloat NaN) = Inl ValueError"
| "py_int (PyFloat PosInf) = Inl OverflowError"
| "py_int (PyFloat NegInf) = Inl OverflowError"
| "py_int (PyStr s) = int_of_text is_int_space s"
| "py_int (PyBytes s) = int_of_text is_ascii_space s"

section \<open>Binary64 arithmetic\<close>

text \<open>
  The two float operations the timestamp conversion performs, on exact rationals:
  rounding to the nearest binary64 number (ties to even), used by the true division of
  two integers and by the product inside \<open>timedelta\<close>.
\<close>

text \<open>The number of binary digits of a positive integer.\<close>

function bitlength :: "int \<Rightarrow> int" where
  "bitlength n = (if n \<le> 0 then 0 else bitlength (n div 2) + 1)"
  by pat_completeness auto
termination
  by (relation "measure nat") auto

declare bitlength.simps [simp del]

definition pow2 :: "int \<Rightarrow> rat" where
  "pow2 d = (if 0 \<le> d then 2 ^ nat d else 1 / 2 ^ nat (- d))"

text \<open>For \<open>q > 0\<close>, the exponent \<open>e\<close> with \<open>2 ^ e \<le> q < 2 ^ (e + 1)\<close>.\<close>

definition ilog2 :: "rat \<Rightarrow> int" where
  "ilog2 q =
     (if 1 \<le> q then bitlength \<lfloor>q\<rfloor> - 1 else - bitlength (\<lceil>1 / q\<rceil> - 1))"

definition round_half_even :: "rat \<Rightarrow> int" where
  "round_half_even q =
     (let f = \<lfloor>q\<rfloor>; r = q - of_int f
      in if r < 1 / 2 then f else if 1 / 2 < r then f + 1 else if even f then f else f + 1)"

definition round_double_pos :: "rat \<Rightarrow> rat" where
  "round_double_pos q =
     (let u = max (ilog2 q - 52) (- 1074) in of_int (round_half_even (q / pow2 u)) * pow2 u)"

definition round_double :: "rat \<Rightarrow> rat" where
  "round_double q =
     (if q = 0 then 0 else if q < 0 then - round_double_pos (- q) else round_double_pos q)"

text \<open>\<open>a / b\<close> on two Python integers: the correctly rounded quotient, a finite float.\<close>

definition py_truediv :: "int \<Rightarrow> int \<Rightarrow> pyerror + rat" where
  "py_truediv a b =
     (if b = 0 then Inl ZeroDivisionError
      else let r = round_double (of_int a / of_int b)
           in if 2 ^ 1024 \<le> \<bar>r\<bar> then Inl OverflowError else Inr r)"

section \<open>datetime and timedelta\<close>

text \<open>
  A \<open>timedelta\<close> is its total number of microseconds; a naive \<open>datetime\<close> is the number of
  microseconds since 0001-01-01T00:00:00 in the proleptic Gregorian calendar.
\<close>

datatype timedelta = Timedelta int

datatype datetime = Datetime int

datatype pynumber = NumInt int | NumFloat rat

definition us_per_day :: int where
  "us_per_day = 86400 * 1000000"

definition check_days :: "int \<Rightarrow> pyerror + timedelta" where
  "check_days us =
     (if 999999999 < \<bar>us div us_per_day\<bar> then Inl OverflowError else Inr (Timedelta us))"

text \<open>
  \<open>timedelta(seconds=x)\<close>. For a float the whole seconds are exact and the fraction is
  scaled to microseconds in float arithmetic and rounded half to even.
\<close>

fun timedelta_seconds :: "pynumber \<Rightarrow> pyerror + timedelta" where
  "timedelta_seconds (NumInt s) = check_days (s * 1000000)"
| "timedelta_seconds (NumFloat f) =
     (let whole = trunc f; frac = f - of_int whole;
          usdouble = round_double (frac * 1000000)
      in check_days (whole * 1000000 + round_half_even usdouble))"

definition is_leap :: "int \<Rightarrow> bool" where
  "is_leap y = (y mod 4 = 0 \<and> (y mod 100 \<noteq> 0 \<or> y mod 400 = 0))"

definition days_before_year :: "int \<Rightarrow> int" where
  "days_before_year year =
     (let y = year - 1 in y * 365 + y div 4 - y div 100 + y div 400)"

definition days_in_month :: "int \<Rightarrow> int \<Rightarrow> int" where
  "days_in_month year month =
     (if month = 2 then (if is_leap year then 29 else 28)
      else if month = 4 \<or> month = 6 \<or> month = 9 \<or> month = 11 then 30 else 31)"

definition days_before_month :: "int \<Rightarrow> int \<Rightarrow> int" where
  "days_before_month year month = (\<Sum>m \<leftarrow> [1 ..< nat month]. days_in_month year (int m))"

definition max_ordinal :: int where
  "max_ordinal = 3652059"

text \<open>\<open>datetime(year, month, day)\<close> at midnight, for a valid date.\<close>

definition datetime_ymd :: "int \<Rightarrow> int \<Rightarrow> int \<Rightarrow> datetime" where
  "datetime_ymd year month day =
     Datetime ((days_before_year year + days_before_month year month + day - 1) * us_per_day)"

definition APPLE_EPOCH :: datetime where
  "APPLE_EPOCH = datetime_ymd 2001 1 1"

text \<open>\<open>datetime + timedelta\<close>: the result must lie in the years 1 to 9999.\<close>

fun datetime_add :: "datetime \<Rightarrow> timedelta \<Rightarrow> pyerror + datetime" where
  "datetime_add (Datetime t) (Timedelta d) =
     (if 0 \<le> t + d \<and> t + d < max_ordinal * us_per_day then Inr (Datetime (t + d))
      else Inl OverflowError)"

section \<open>apple\_timestamp\_to\_datetime\<close>

definition apple_timestamp_to_datetime :: "pyvalue \<Rightarrow> pyerror + datetime option" where
  "apple_timestamp_to_datetime v =
     (if v = PyNone then Inr None
      else case py_int v of
        Inl e \<Rightarrow> if e = TypeError \<or> e = ValueError then Inr None else Inl e
      | Inr val \<Rightarrow>
          if val = 0 then Inr None
          else bind_err
                 (if 10 ^ 12 < val
                  then bind_err (py_truediv val 1000000000) (\<lambda>f. Inr (NumFloat f))
                  else Inr (NumInt val))
                 (\<lambda>seconds. bind_err (timedelta_seconds seconds)
                    (\<lambda>delta. bind_err (datetime_add APPLE_EPOCH delta)
                       (\<lambda>r. Inr (Some r)))))"

text \<open>The instant \<open>us\<close> microseconds after (before, when negative) a datetime.\<close>

fun datetime_plus_us :: "datetime \<Rightarrow> int \<Rightarrow> datetime" where
  "datetime_plus_us (Datetime t) us = Datetime (t + us)"

section \<open>Paths\<close>

text \<open>
  A \<open>pathlib\<close> path on POSIX: its root (empty for a relative path, one slash, or two
  slashes when the text starts with exactly two) and its components. Parsing drops empty
  components and single dots; \<open>..\<close> is kept as a component.
\<close>

datatype path = Path (root: string) (names: "string list")

fun split_slash :: "string \<Rightarrow> string list" where
  "split_slash [] = [[]]"
| "split_slash (c # cs) =
     (if c = CHR ''/'' then [] # split_slash cs
      else (c # hd (split_slash cs)) # tl (split_slash cs))"

definition is_component :: "string \<Rightarrow> bool" where
  "is_component w = (w \<noteq> [] \<and> w \<noteq> ''.'')"

definition names_of :: "string \<Rightarrow> string list" where
  "names_of s = filter is_component (split_slash s)"

definition root_of :: "string \<Rightarrow> string" where
  "root_of s =
     (let n = length (takeWhile (\<lambda>c. c = CHR ''/'') s)
      in if n = 0 then [] else if n = 2 then ''//'' else ''/'')"

definition parse_path :: "string \<Rightarrow> path" where
  "parse_path s = Path (root_of s) (names_of s)"

text \<open>\<open>p / q\<close>: an absolute right operand replaces the left one.\<close>

definition joinpath :: "path \<Rightarrow> path \<Rightarrow> path" where
  "joinpath p q = (if root q \<noteq> [] then q else Path (root p) (names p @ names q))"

definition join_str :: "path \<Rightarrow> string \<Rightarrow> path" where
  "join_str p s = joinpath p (parse_path s)"

definition parent :: "path \<Rightarrow> path" where
  "parent p = Path (root p) (butlast (names p))"

definition name :: "path \<Rightarrow> string" where
  "name p = (if names p = [] then [] else last (names p))"

text \<open>
  \<open>suffix\<close> and \<open>stem\<close> cut the final component at its last dot, unless that dot is the
  first or the last character.
\<close>

definition rfind_dot :: "string \<Rightarrow> nat option" where
  "rfind_dot n =
     (if CHR ''.'' \<in> set n
      then Some (length n - 1 - length (takeWhile (\<lambda>c. c \<noteq> CHR ''.'') (rev n)))
      else None)"

definition suffix :: "path \<Rightarrow> string" where
  "suffix p =
     (let n = name p
      in case rfind_dot n of
           None \<Rightarrow> []
         | Some i \<Rightarrow> if 0 < i \<and> i < length n - 1 then drop i n else [])"

definition stem :: "path \<Rightarrow> string" where
  "stem p =
     (let n = name p
      in case rfind_dot n of
           None \<Rightarrow> n
         | Some i \<Rightarrow> if 0 < i \<and> i < length n - 1 then take i n else n)"

section \<open>The file system\<close>

text \<open>
  The file system is a finite table from paths to nodes, the first entry for a path being
  the current one. A path is looked up as \<open>pathlib\<close> normalised it: there are no
  symbolic links, and \<open>..\<close> is an ordinary name. File contents are strings.
\<close>

datatype node = File string | Dir

type_synonym fs = "(path \<times> node) list"

definition lookup :: "fs \<Rightarrow> path \<Rightarrow> node option" where
  "lookup fs p = map_of fs p"

definition exists :: "fs \<Rightarrow> path \<Rightarrow> bool" where
  "exists fs p = (lookup fs p \<noteq> None)"

definition is_dir :: "fs \<Rightarrow> path \<Rightarrow> bool" where
  "is_dir fs p = (lookup fs p = Some Dir)"


text \<open>
  \<open>os.mkdir\<close>: the parent must be a directory and the path itself must not exist.
\<close>

definition os_mkdir :: "fs \<Rightarrow> path \<Rightarrow> pyerror + fs" where
  "os_mkdir fs p =
     (case lookup fs (parent p) of
        None \<Rightarrow> Inl FileNotFoundError
      | Some (File c) \<Rightarrow> Inl NotADirectoryError
      | Some Dir \<Rightarrow> if exists fs p then Inl FileExistsError else Inr ((p, Dir) # fs))"

text \<open>\<open>Path.mkdir(parents=False, exist_ok=True)\<close>.\<close>

definition mkdir_exist_ok :: "fs \<Rightarrow> path \<Rightarrow> pyerror + fs" where
  "mkdir_exist_ok fs p =
     (case os_mkdir fs p of
        Inr fs' \<Rightarrow> Inr fs'
      | Inl e \<Rightarrow> if e \<noteq> FileNotFoundError \<and> is_dir fs p then Inr fs else Inl e)"

text \<open>
  \<open>Path.mkdir(parents=True, exist_ok=True)\<close>: on FileNotFoundError the parent is created
  first (recursively) and the directory is made again.
\<close>

function mkdir_parents :: "fs \<Rightarrow> path \<Rightarrow> pyerror + fs" where
  "mkdir_parents fs p =
     (case os_mkdir fs p of
        Inr fs' \<Rightarrow> Inr fs'
      | Inl e \<Rightarrow>
          if e = FileNotFoundError
          then (if names p = [] then Inl FileNotFoundError
                else bind_err (mkdir_parents fs (parent p)) (\<lambda>fs'. mkdir_exist_ok fs' p))
          else if is_dir fs p then Inr fs else Inl e)"
  by pat_completeness auto
termination
  by (relation "measure (\<lambda>(fs, p). length (names p))") (auto simp: parent_def)

declare mkdir_parents.simps [simp del]

definition is_under :: "path \<Rightarrow> path \<Rightarrow> bool" where
  "is_under d q = (root q = root d \<and> take (length (names d)) (names q) = names d)"

text \<open>
  \<open>adds_dirs fs fs' p\<close>: \<open>fs'\<close> is \<open>fs\<close> with some missing directories on the way to \<open>p\<close>
  created, and nothing else changed.
\<close>

definition adds_dirs :: "fs \<Rightarrow> fs \<Rightarrow> path \<Rightarrow> bool" where
  "adds_dirs fs fs' p =
     (\<forall>q. lookup fs' q = lookup fs q
          \<or> (lookup fs q = None \<and> lookup fs' q = Some Dir \<and> is_under q p))"

text \<open>\<open>extends fs fs'\<close>: every entry of \<open>fs\<close> is still there, unchanged, in \<open>fs'\<close>.\<close>

definition extends :: "fs \<Rightarrow> fs \<Rightarrow> bool" where
  "extends fs fs' = (\<forall>q n. lookup fs q = Some n \<longrightarrow> lookup fs' q = Some n)"

text \<open>A path as \<open>pathlib\<close> builds it: no component is empty, a single dot, or holds a slash.\<close>

definition valid_path :: "path \<Rightarrow> bool" where
  "valid_path p = list_all (\<lambda>c. is_component c \<and> CHR ''/'' \<notin> set c) (names p)"

text \<open>\<open>shutil.rmtree\<close>: removes a directory with everything below it.\<close>

definition rmtree :: "fs \<Rightarrow> path \<Rightarrow> pyerror + fs" where
  "rmtree fs d =
     (case lookup fs d of
        None \<Rightarrow> Inl FileNotFoundError
      | Some (File c) \<Rightarrow> Inl NotADirectoryError
      | Some Dir \<Rightarrow> Inr (filter (\<lambda>(q, n). \<not> is_under d q) fs))"

text \<open>Opening a file for writing creates it, or truncates it.\<close>

definition open_w :: "fs \<Rightarrow> path \<Rightarrow> pyerror + fs" where
  "open_w fs p =
     (case lookup fs (parent p) of
        None \<Rightarrow> Inl FileNotFoundError
      | Some (File c) \<Rightarrow> Inl NotADirectoryError
      | Some Dir \<Rightarrow> if is_dir fs p then Inl IsADirectoryError else Inr ((p, File []) # fs))"

text \<open>
  \<open>shutil.copy2(src, dst)\<close>: a destination that is a directory receives the file under
  the source's name; the source must be a regular file other than the destination.
\<close>

definition copy2 :: "fs \<Rightarrow> path \<Rightarrow> path \<Rightarrow> pyerror + fs" where
  "copy2 fs src dst =
     (let dst' = (if is_dir fs dst then join_str dst (name src) else dst)
      in case lookup fs src of
           None \<Rightarrow> Inl FileNotFoundError
         | Some Dir \<Rightarrow> Inl IsADirectoryError
         | Some (File c) \<Rightarrow>
             if src = dst' then Inl SameFileError
             else case open_w fs dst' of
                    Inl e \<Rightarrow> Inl e
                  | Inr fs' \<Rightarrow> Inr ((dst', File c) # fs'))"

section \<open>resolve\_attachment\_path\<close>

definition ATTACHMENT_MARKER :: string where
  "ATTACHMENT_MARKER = ''Library/SMS/Attachments/''"

definition newline :: char where
  "newline = CHR 0x0A"

text \<open>
  \<open>ATTACHMENT_ANCHOR.search(s)\<close> with the pattern \<open>Library/SMS/Attachments/(.*)\<close>: the
  leftmost occurrence of the marker; the group is the rest of that line.
\<close>

fun anchor_search :: "string \<Rightarrow> string option" where
  "anchor_search [] = None"
| "anchor_search (c # cs) =
     (if take (length ATTACHMENT_MARKER) (c # cs) = ATTACHMENT_MARKER
      then Some (takeWhile (\<lambda>d. d \<noteq> newline) (drop (length ATTACHMENT_MARKER) (c # cs)))
      else anchor_search cs)"

definition primary_candidate :: "path \<Rightarrow> string \<Rightarrow> path" where
  "primary_candidate attachments_root rel =
     joinpath (join_str (join_str (join_str attachments_root ''Library'') ''SMS'')
       ''Attachments'') (parse_path rel)"

definition fallback_candidate :: "path \<Rightarrow> string \<Rightarrow> path" where
  "fallback_candidate attachments_root rel = joinpath attachments_root (parse_path rel)"

definition resolve_attachment_path :: "string option \<Rightarrow> path \<Rightarrow> fs \<Rightarrow> path option" where
  "resolve_attachment_path raw_path attachments_root fs =
     (case raw_path of
        None \<Rightarrow> None
      | Some raw \<Rightarrow>
          if raw = [] then None
          else case anchor_search raw of
                 None \<Rightarrow> None
               | Some rel \<Rightarrow>
                   if exists fs (primary_candidate attachments_root rel)
                   then Some (primary_candidate attachments_root rel)
                   else if exists fs (fallback_candidate attachments_root rel)
                   then Some (fallback_candidate attachments_root rel)
                   else None)"


section \<open>The message store and fetch\_messages\<close>

text \<open>
  The tables of \<open>sms.db\<close> the query reads, with the columns it names. A stored value is
  NULL, an INTEGER, a REAL (never a NaN, which SQLite stores as NULL), a TEXT or a BLOB.
\<close>

datatype sqlreal = RFinite rat | RPosInf | RNegInf

datatype sqlvalue = SqlNull | SqlInteger int | SqlReal sqlreal | SqlText string | SqlBlob string

record message_rec =
  m_ROWID :: int
  m_handle_id :: "int option"
  m_date :: sqlvalue
  m_is_from_me :: "int option"
  m_text :: "string option"
  m_cache_roomnames :: "string option"

record handle_rec =
  h_ROWID :: int
  h_id :: "string option"

record maj_rec =
  maj_message_id :: "int option"
  maj_attachment_id :: "int option"

record attachment_rec =
  a_ROWID :: int
  a_filename :: "string option"
  a_transfer_name :: "string option"
  a_mime_type :: "string option"

record database =
  message :: "message_rec list"
  handle :: "handle_rec list"
  message_attachment_join :: "maj_rec list"
  attachment :: "attachment_rec list"

text \<open>One result row of the query, under the names the query gives its columns.\<close>

record row =
  message_id :: int
  handle_id :: "int option"
  date :: sqlvalue
  is_from_me :: "int option"
  msg_text :: "string option"
  cache_roomnames :: "string option"
  filename :: "string option"
  transfer_name :: "string option"
  mime_type :: "string option"

definition make_row :: "message_rec \<Rightarrow> attachment_rec option \<Rightarrow> row" where
  "make_row m a =
     \<lparr> message_id = m_ROWID m, handle_id = m_handle_id m, date = m_date m,
       is_from_me = m_is_from_me m, msg_text = m_text m,
       cache_roomnames = m_cache_roomnames m,
       filename = (case a of None \<Rightarrow> None | Some x \<Rightarrow> a_filename x),
       transfer_name = (case a of None \<Rightarrow> None | Some x \<Rightarrow> a_transfer_name x),
       mime_type = (case a of None \<Rightarrow> None | Some x \<Rightarrow> a_mime_type x) \<rparr>"

text \<open>
  The two LEFT JOINs for one message: one row per matching attachment, and one row with
  NULL attachment columns where a join finds no partner.
\<close>

definition attachment_rows :: "database \<Rightarrow> message_rec \<Rightarrow> row list" where
  "attachment_rows db m =
     (let majs = filter (\<lambda>j. maj_message_id j = Some (m_ROWID m)) (message_attachment_join db)
      in if majs = [] then [make_row m None]
         else concat (map (\<lambda>j.
                let ats = filter (\<lambda>a. Some (a_ROWID a) = maj_attachment_id j) (attachment db)
                in if ats = [] then [make_row m None] else map (\<lambda>a. make_row m (Some a)) ats)
              majs))"

text \<open>The inner JOIN with \<open>handle\<close> and the WHERE clause \<open>h.id = ?\<close>.\<close>

definition joined_rows :: "database \<Rightarrow> string \<Rightarrow> row list" where
  "joined_rows db handle_identifier =
     concat (map (\<lambda>m.
       concat (map (\<lambda>h.
         if Some (h_ROWID h) = m_handle_id m \<and> h_id h = Some handle_identifier
         then attachment_rows db m else [])
       (handle db)))
     (message db))"

text \<open>
  SQLite's order of values in ORDER BY: NULL first, then the numbers by value, then TEXT,
  then BLOB, the last two byte by byte.
\<close>

fun sql_class :: "sqlvalue \<Rightarrow> nat" where
  "sql_class SqlNull = 0"
| "sql_class (SqlInteger i) = 1"
| "sql_class (SqlReal r) = 1"
| "sql_class (SqlText t) = 2"
| "sql_class (SqlBlob b) = 3"

fun sqlreal_le :: "sqlreal \<Rightarrow> sqlreal \<Rightarrow> bool" where
  "sqlreal_le RNegInf y = True"
| "sqlreal_le x RPosInf = True"
| "sqlreal_le (RFinite a) (RFinite b) = (a \<le> b)"
| "sqlreal_le (RFinite a) RNegInf = False"
| "sqlreal_le RPosInf (RFinite b) = False"
| "sqlreal_le RPosInf RNegInf = False"

fun lex_le :: "string \<Rightarrow> string \<Rightarrow> bool" where
  "lex_le [] ys = True"
| "lex_le (x # xs) [] = False"
| "lex_le (x # xs) (y # ys) = (code x < code y \<or> (code x = code y \<and> lex_le xs ys))"

fun sql_le :: "sqlvalue \<Rightarrow> sqlvalue \<Rightarrow> bool" where
  "sql_le (SqlInteger i) (SqlInteger j) = (i \<le> j)"
| "sql_le (SqlInteger i) (SqlReal r) = sqlreal_le (RFinite (of_int i)) r"
| "sql_le (SqlReal r) (SqlInteger j) = sqlreal_le r (RFinite (of_int j))"
| "sql_le (SqlReal r) (SqlReal q) = sqlreal_le r q"
| "sql_le (SqlText a) (SqlText b) = lex_le a b"
| "sql_le (SqlBlob a) (SqlBlob b) = lex_le a b"
| "sql_le x y = (sql_class x \<le> sql_class y)"

text \<open>\<open>ORDER BY m.date, m.ROWID\<close>: by date, and by row id among equal dates.\<close>

definition row_le :: "row \<Rightarrow> row \<Rightarrow> bool" where
  "row_le r s =
     (sql_le (date r) (date s)
      \<and> (sql_le (date s) (date r) \<longrightarrow> message_id r \<le> message_id s))"

fun insert_row :: "row \<Rightarrow> row list \<Rightarrow> row list" where
  "insert_row r [] = [r]"
| "insert_row r (s # ss) = (if row_le r s then r # s # ss else s # insert_row r ss)"

definition order_by :: "row list \<Rightarrow> row list" where
  "order_by rows = foldr insert_row rows []"

definition fetch_messages :: "database \<Rightarrow> string \<Rightarrow> row list" where
  "fetch_messages connection handle_identifier =
     order_by (joined_rows connection handle_identifier)"

text \<open>The Python object \<open>sqlite3\<close> hands out for a stored value.\<close>

fun to_python :: "sqlvalue \<Rightarrow> pyvalue" where
  "to_python SqlNull = PyNone"
| "to_python (SqlInteger i) = PyInt i"
| "to_python (SqlReal (RFinite q)) = PyFloat (Finite q)"
| "to_python (SqlReal RPosInf) = PyFloat PosInf"
| "to_python (SqlReal RNegInf) = PyFloat NegInf"
| "to_python (SqlText t) = PyStr t"
| "to_python (SqlBlob b) = PyBytes b"

section \<open>Formatting a timestamp\<close>

definition digit_char :: "nat \<Rightarrow> char" where
  "digit_char d = char_of (48 + d)"

text \<open>\<open>str(n)\<close> for a natural number: its decimal digits.\<close>

function str_nat :: "nat \<Rightarrow> string" where
  "str_nat n = (if n < 10 then [digit_char n] else str_nat (n div 10) @ [digit_char (n mod 10)])"
  by pat_completeness auto
termination
  by (relation "measure id") auto

declare str_nat.simps [simp del]

definition pad2 :: "int \<Rightarrow> string" where
  "pad2 x = (if x < 10 then CHR ''0'' # str_nat (nat x) else str_nat (nat x))"

text \<open>
  The calendar date of a day number (days since 0001-01-01, counted from 1): the year by
  the cycles of 400, 100, 4 and 1 years, then the month and the day within the year.
\<close>

definition ord2ymd :: "int \<Rightarrow> int \<times> int \<times> int" where
  "ord2ymd ordinal =
     (let n = ordinal - 1;
          n400 = n div 146097; n = n mod 146097;
          n100 = n div 36524; n = n mod 36524;
          n4 = n div 1461; n = n mod 1461;
          n1 = n div 365; n = n mod 365;
          year = n400 * 400 + 1 + n100 * 100 + n4 * 4 + n1
      in if n1 = 4 \<or> n100 = 4 then (year - 1, 12, 31)
         else let month = (case filter (\<lambda>m. n < days_before_month year (int m + 1)) [1 ..< 13] of
                             [] \<Rightarrow> 12 | m # ms \<Rightarrow> int m)
              in (year, month, n - days_before_month year month + 1))"

text \<open>
  \<open>strftime("%Y-%m-%d %H:%M:%S")\<close>. The year is printed without padding, as the C
  library of the reference platform does for years below 1000.
\<close>

fun strftime :: "datetime \<Rightarrow> string" where
  "strftime (Datetime us) =
     (let days = us div us_per_day;
          secs = (us mod us_per_day) div 1000000;
          ymd = ord2ymd (days + 1)
      in str_nat (nat (fst ymd)) @ ''-'' @ pad2 (fst (snd ymd)) @ ''-'' @ pad2 (snd (snd ymd))
         @ '' '' @ pad2 (secs div 3600) @ '':'' @ pad2 ((secs div 60) mod 60)
         @ '':'' @ pad2 (secs mod 60))"

section \<open>Copying an attachment\<close>

text \<open>
  The destination \<open>attachments_dir / f"{base_name}_{suffix}{suffix_str}"\<close> of the
  collision loop in format\_message, and the loop itself: while the destination exists,
  the next numbered name is tried. The file system is finite and the numbered
  destinations are pairwise different, which is why the loop ends.
\<close>

definition numbered :: "path \<Rightarrow> string \<Rightarrow> string \<Rightarrow> nat \<Rightarrow> path" where
  "numbered attachments_dir base_name suffix_str k =
     join_str attachments_dir (base_name @ ''_'' @ str_nat k @ suffix_str)"

function unique_destination ::
  "fs \<Rightarrow> path \<Rightarrow> string \<Rightarrow> string \<Rightarrow> path \<Rightarrow> nat \<Rightarrow> path" where
  "unique_destination fs attachments_dir base_name suffix_str destination k =
     (if exists fs destination
      then unique_destination fs attachments_dir base_name suffix_str
             (numbered attachments_dir base_name suffix_str k) (Suc k)
      else destination)"
  by pat_completeness auto

lemma code_digit_char: "d < 10 \<Longrightarrow> code (digit_char d) = 48 + d"
  by (simp add: code_def digit_char_def)

lemma str_nat_value: "foldl (\<lambda>a c. 10 * a + (code c - 48)) 0 (str_nat n) = n"
proof (induction n rule: str_nat.induct)
  case (1 n)
  show ?case
  proof (cases "n < 10")
    case True
    then have "str_nat n = [digit_char n]" by (subst str_nat.simps) simp
    then show ?thesis using True by (simp add: code_digit_char)
  next
    case False
    then have s: "str_nat n = str_nat (n div 10) @ [digit_char (n mod 10)]"
      by (subst str_nat.simps) simp
    have ih: "foldl (\<lambda>a c. 10 * a + (code c - 48)) 0 (str_nat (n div 10)) = n div 10"
      using 1 False by simp
    have "code (digit_char (n mod 10)) = 48 + n mod 10"
      by (rule code_digit_char) simp
    then show ?thesis unfolding s foldl_append ih by simp
  qed
qed

lemma str_nat_inj: "str_nat m = str_nat n \<Longrightarrow> m = n"
  by (metis str_nat_value)

lemma digit_char_no_slash: "d < 10 \<Longrightarrow> digit_char d \<noteq> CHR ''/''"
proof
  assume "d < 10" and "digit_char d = CHR ''/''"
  then have "code (CHR ''/'') = 48 + d" using code_digit_char [of d] by simp
  then show False by (simp add: code_def)
qed

lemma str_nat_no_slash: "CHR ''/'' \<notin> set (str_nat n)"
proof (induction n rule: str_nat.induct)
  case (1 n)
  show ?case
  proof (cases "n < 10")
    case True
    then show ?thesis
      using digit_char_no_slash [of n] by (subst str_nat.simps) auto
  next
    case False
    then show ?thesis
      using 1 digit_char_no_slash [of "n mod 10"] by (subst str_nat.simps) auto
  qed
qed

lemma split_slash_nonempty: "split_slash s \<noteq> []"
  by (cases s) auto

lemma split_slash_plain:
  "CHR ''/'' \<notin> set x \<Longrightarrow>
   split_slash (x @ s) = (x @ hd (split_slash s)) # tl (split_slash s)"
  by (induction x) (auto simp: split_slash_nonempty)

lemma split_slash_append:
  "split_slash (x @ CHR ''/'' # s) = split_slash x @ split_slash s"
proof (induction x)
  case Nil
  then show ?case by simp
next
  case (Cons c x)
  then show ?case using split_slash_nonempty [of x] by (cases "split_slash x") auto
qed

lemma names_of_inj:
  "CHR ''/'' \<notin> set pre \<Longrightarrow> CHR ''/'' \<notin> set d \<Longrightarrow> CHR ''/'' \<notin> set d' \<Longrightarrow>
   names_of (pre @ b @ CHR ''_'' # d @ e) = names_of (pre @ b @ CHR ''_'' # d' @ e) \<Longrightarrow> d = d'"
proof (induction b arbitrary: pre)
  case Nil
  have "\<And>z. CHR ''/'' \<notin> set z \<Longrightarrow>
      names_of (pre @ CHR ''_'' # z @ e)
        = (pre @ CHR ''_'' # z @ hd (split_slash e)) # filter is_component (tl (split_slash e))"
  proof -
    fix z :: string assume z: "CHR ''/'' \<notin> set z"
    have "split_slash ((pre @ CHR ''_'' # z) @ e)
        = ((pre @ CHR ''_'' # z) @ hd (split_slash e)) # tl (split_slash e)"
      using Nil.prems(1) z by (intro split_slash_plain) auto
    moreover have "is_component (pre @ CHR ''_'' # z @ hd (split_slash e))"
      by (auto simp: is_component_def append_eq_Cons_conv)
    ultimately show "names_of (pre @ CHR ''_'' # z @ e)
        = (pre @ CHR ''_'' # z @ hd (split_slash e)) # filter is_component (tl (split_slash e))"
      by (simp add: names_of_def)
  qed
  then show ?case using Nil.prems by simp
next
  case (Cons c b)
  show ?case
  proof (cases "c = CHR ''/''")
    case True
    have "\<And>z. names_of (pre @ (c # b) @ CHR ''_'' # z @ e)
        = filter is_component (split_slash pre) @ names_of ([] @ b @ CHR ''_'' # z @ e)"
      using True split_slash_append [of pre] by (simp add: names_of_def)
    then have "names_of ([] @ b @ CHR ''_'' # d @ e) = names_of ([] @ b @ CHR ''_'' # d' @ e)"
      using Cons.prems(4) by simp
    then show ?thesis using Cons.IH [of "[]"] Cons.prems by simp
  next
    case False
    have "names_of ((pre @ [c]) @ b @ CHR ''_'' # d @ e)
        = names_of ((pre @ [c]) @ b @ CHR ''_'' # d' @ e)"
      using Cons.prems(4) by simp
    then show ?thesis using Cons.IH [of "pre @ [c]"] Cons.prems False by simp
  qed
qed

lemma root_of_marker:
  "root_of (b @ CHR ''_'' # x) = root_of (b @ CHR ''_'' # y)"
proof (cases "\<forall>c \<in> set b. c = CHR ''/''")
  case True
  then show ?thesis by (simp add: root_of_def takeWhile_append2)
next
  case False
  then obtain c where c: "c \<in> set b" "\<not> c = CHR ''/''" by blast
  have "\<And>z. takeWhile (\<lambda>c. c = CHR ''/'') (b @ z) = takeWhile (\<lambda>c. c = CHR ''/'') b"
    using c by (rule takeWhile_append1)
  then show ?thesis by (simp add: root_of_def)
qed

lemma numbered_inj:
  assumes "numbered dir base ext j = numbered dir base ext k"
  shows "j = k"
proof -
  let ?s = "\<lambda>k. base @ CHR ''_'' # str_nat k @ ext"
  have r: "root_of (?s j) = root_of (?s k)" by (rule root_of_marker)
  have "names_of (?s j) = names_of (?s k)"
    using assms r by (auto simp: numbered_def join_str_def joinpath_def parse_path_def split: if_splits)
  then have "names_of ([] @ base @ CHR ''_'' # str_nat j @ ext)
      = names_of ([] @ base @ CHR ''_'' # str_nat k @ ext)" by simp
  then have "str_nat j = str_nat k"
    by (rule names_of_inj [rotated 3]) (simp_all add: str_nat_no_slash)
  then show ?thesis by (rule str_nat_inj)
qed

lemma exists_iff: "exists fs p \<longleftrightarrow> p \<in> fst ` set fs"
  by (simp add: exists_def lookup_def map_of_eq_None_iff)

definition later_numbered :: "path \<Rightarrow> string \<Rightarrow> string \<Rightarrow> nat \<Rightarrow> path \<times> node \<Rightarrow> bool" where
  "later_numbered dir base ext k e = (\<exists>j \<ge> k. fst e = numbered dir base ext j)"

lemma later_numbered_Suc:
  "later_numbered dir base ext (Suc k) e \<Longrightarrow> later_numbered dir base ext k e"
  unfolding later_numbered_def using Suc_leD by blast

lemma later_numbered_filter:
  "filter (later_numbered dir base ext (Suc k)) fs
     = filter (later_numbered dir base ext (Suc k)) (filter (later_numbered dir base ext k) fs)"
  unfolding filter_filter by (rule filter_cong) (auto dest: later_numbered_Suc)

lemma later_numbered_decreases:
  "length (filter (later_numbered dir base ext (Suc k)) fs)
     \<le> length (filter (later_numbered dir base ext k) fs)"
  by (subst later_numbered_filter) (rule length_filter_le)

lemma later_numbered_strict:
  assumes "exists fs (numbered dir base ext k)"
  shows "length (filter (later_numbered dir base ext (Suc k)) fs)
     < length (filter (later_numbered dir base ext k) fs)"
proof -
  obtain e where e: "e \<in> set fs" "fst e = numbered dir base ext k"
    using assms by (auto simp: exists_iff)
  have in_k: "e \<in> set (filter (later_numbered dir base ext k) fs)"
    using e by (auto simp: later_numbered_def)
  have not_suc: "\<not> later_numbered dir base ext (Suc k) e"
  proof
    assume "later_numbered dir base ext (Suc k) e"
    then obtain j where "Suc k \<le> j" "fst e = numbered dir base ext j"
      unfolding later_numbered_def by blast
    then have "j = k" using e(2) numbered_inj [of dir base ext j k] by simp
    then show False using \<open>Suc k \<le> j\<close> by simp
  qed
  have "length (filter (later_numbered dir base ext (Suc k))
        (filter (later_numbered dir base ext k) fs))
      < length (filter (later_numbered dir base ext k) fs)"
    using in_k not_suc by (rule length_filter_less)
  then show ?thesis by (subst later_numbered_filter)
qed

termination unique_destination
proof (relation "measure (\<lambda>(fs, dir, base, ext, dest, k).
    2 * length (filter (later_numbered dir base ext k) fs) + (if exists fs dest then 1 else 0))")
  show "wf (measure (\<lambda>(fs, dir, base, ext, dest, k).
    2 * length (filter (later_numbered dir base ext k) fs) + (if exists fs dest then 1 else 0)))"
    by simp
next
  fix fs :: fs and attachments_dir base_name suffix_str destination and k :: nat
  assume ex: "exists fs destination"
  have le: "length (filter (later_numbered attachments_dir base_name suffix_str (Suc k)) fs)
      \<le> length (filter (later_numbered attachments_dir base_name suffix_str k) fs)"
    by (rule later_numbered_decreases)
  have "2 * length (filter (later_numbered attachments_dir base_name suffix_str (Suc k)) fs)
        + (if exists fs (numbered attachments_dir base_name suffix_str k) then 1 else 0)
      < 2 * length (filter (later_numbered attachments_dir base_name suffix_str k) fs) + 1"
  proof (cases "exists fs (numbered attachments_dir base_name suffix_str k)")
    case True
    then show ?thesis using later_numbered_strict [OF True] by simp
  next
    case False
    then show ?thesis using le by simp
  qed
  then show "((fs, attachments_dir, base_name, suffix_str,
        numbered attachments_dir base_name suffix_str k, Suc k),
       (fs, attachments_dir, base_name, suffix_str, destination, k))
      \<in> measure (\<lambda>(fs, dir, base, ext, dest, k).
    2 * length (filter (later_numbered dir base ext k) fs) + (if exists fs dest then 1 else 0))"
    using ex by simp
qed

declare unique_destination.simps [simp del]

text \<open>
  Lines 200 to 212 of format\_message: the directory is created, the destination name is
  the transfer name or else the name of the resolved file, the collision loop picks a
  free destination, and the file is copied. The result is the name of the destination.
\<close>

definition recorded :: "string option \<Rightarrow> bool" where
  "recorded v = (case v of None \<Rightarrow> False | Some t \<Rightarrow> t \<noteq> [])"

text \<open>\<open>row["transfer_name"] or attachment_path.name\<close>.\<close>

definition destination_name_of :: "row \<Rightarrow> path \<Rightarrow> string" where
  "destination_name_of row attachment_path =
     (case transfer_name row of
        None \<Rightarrow> name attachment_path
      | Some t \<Rightarrow> if t = [] then name attachment_path else t)"

definition copy_attachment :: "row \<Rightarrow> path \<Rightarrow> path \<Rightarrow> fs \<Rightarrow> (pyerror + string) \<times> fs" where
  "copy_attachment row attachments_dir attachment_path fs =
     (case mkdir_parents fs attachments_dir of
        Inl e \<Rightarrow> (Inl e, fs)
      | Inr fs1 \<Rightarrow>
          let destination_name = destination_name_of row attachment_path;
              destination = join_str attachments_dir destination_name;
              final = unique_destination fs1 attachments_dir (stem destination)
                        (suffix destination) destination 1
          in case copy2 fs1 attachment_path final of
               Inl e \<Rightarrow> (Inl e, fs1)
             | Inr fs2 \<Rightarrow> (Inr (name final), fs2))"

section \<open>format\_message\<close>

definition carriage_return :: char where
  "carriage_return = CHR 0x0D"

text \<open>\<open>s.replace("\r\n", "\n").replace("\r", "\n")\<close>.\<close>

fun crlf_to_lf :: "string \<Rightarrow> string" where
  "crlf_to_lf (c # d # r) =
     (if c = carriage_return \<and> d = newline then newline # crlf_to_lf r
      else c # crlf_to_lf (d # r))"
| "crlf_to_lf r = r"

definition normalize_newlines :: "string \<Rightarrow> string" where
  "normalize_newlines s = map (\<lambda>c. if c = carriage_return then newline else c) (crlf_to_lf s)"

text \<open>\<open>", ".join(xs)\<close>.\<close>

fun join_comma :: "string list \<Rightarrow> string" where
  "join_comma [] = []"
| "join_comma [x] = x"
| "join_comma (x # y # r) = x @ '', '' @ join_comma (y # r)"

definition truthy_int :: "int option \<Rightarrow> bool" where
  "truthy_int v = (case v of None \<Rightarrow> False | Some i \<Rightarrow> i \<noteq> 0)"

text \<open>The text of the line before the attachment note.\<close>

definition line_head :: "row \<Rightarrow> string \<Rightarrow> datetime option \<Rightarrow> string" where
  "line_head row handle_identifier timestamp =
     (let timestamp_text =
            (case timestamp of None \<Rightarrow> ''Unbekannte Zeit'' | Some t \<Rightarrow> strftime t);
          sender = (if truthy_int (is_from_me row) then ''Ich'' else handle_identifier);
          body = normalize_newlines (case msg_text row of None \<Rightarrow> [] | Some t \<Rightarrow> t)
      in ''['' @ timestamp_text @ ''] '' @ sender @ '': ''
           @ (if body = [] then ''(kein Text)'' else body))"

definition attachment_note :: "string list \<Rightarrow> string" where
  "attachment_note attachments =
     (if attachments \<noteq> []
      then '' '' @ join_comma (map (\<lambda>n. ''[Anhang: '' @ n @ '']'') attachments)
      else [])"

definition NOT_FOUND :: string where
  "NOT_FOUND = ''(Anhang nicht gefunden im Backup)''"

text \<open>
  The variable \<open>attachment_path\<close>: the resolver is asked only when media export is
  requested and both directories are given; otherwise it stays \<open>None\<close>.
\<close>

definition attachment_path_of ::
  "row \<Rightarrow> path option \<Rightarrow> path option \<Rightarrow> bool \<Rightarrow> fs \<Rightarrow> path option" where
  "attachment_path_of row attachments_dir attachments_root include_media fs =
     (case attachments_root of
        None \<Rightarrow> None
      | Some r \<Rightarrow>
          if include_media \<and> attachments_dir \<noteq> None
          then resolve_attachment_path (filename row) r fs
          else None)"

text \<open>
  The result is the line and the list \<open>attachments\<close>, or the exception raised, together
  with the file system the call leaves behind.
\<close>

definition format_message ::
  "row \<Rightarrow> string \<Rightarrow> path option \<Rightarrow> path option \<Rightarrow> bool \<Rightarrow> fs
     \<Rightarrow> (pyerror + string \<times> string list) \<times> fs" where
  "format_message row handle_identifier attachments_dir attachments_root include_media fs =
     (case apple_timestamp_to_datetime (to_python (date row)) of
        Inl e \<Rightarrow> (Inl e, fs)
      | Inr timestamp \<Rightarrow>
          let attachment_path =
                attachment_path_of row attachments_dir attachments_root include_media fs
          in case (case (attachment_path, attachments_dir) of
                     (Some src, Some d) \<Rightarrow>
                       (case copy_attachment row d src fs of
                          (Inl e, fs') \<Rightarrow> (Inl e, fs')
                        | (Inr n, fs') \<Rightarrow> (Inr [n], fs'))
                   | _ \<Rightarrow> (Inr [], fs)) of
               (Inl e, fs') \<Rightarrow> (Inl e, fs')
             | (Inr copied, fs') \<Rightarrow>
                 let attachments =
                       (if recorded (filename row) \<and> include_media \<and> attachment_path = None
                        then copied @ [NOT_FOUND] else copied)
                 in (Inr (line_head row handle_identifier timestamp
                            @ attachment_note attachments, attachments), fs'))"

section \<open>export\_for\_contact and export\_chats\<close>

definition ensure_output_path :: "path \<Rightarrow> bool \<Rightarrow> fs \<Rightarrow> pyerror + fs" where
  "ensure_output_path p overwrite fs =
     (if exists fs p \<and> \<not> overwrite then Inl FileExistsError
      else mkdir_parents fs (parent p))"

text \<open>
  The loop over the rows inside the \<open>with\<close> block. The lines written so far are kept
  in \<open>written\<close>; they reach the file when the block is left, normally or by an exception.
\<close>

fun format_rows ::
  "row list \<Rightarrow> string \<Rightarrow> path option \<Rightarrow> path option \<Rightarrow> bool \<Rightarrow> string \<Rightarrow> fs
     \<Rightarrow> pyerror option \<times> string \<times> fs" where
  "format_rows [] handle_identifier attachments_dir attachments_root include_media written fs =
     (None, written, fs)"
| "format_rows (row # rows) handle_identifier attachments_dir attachments_root include_media
     written fs =
     (case format_message row handle_identifier attachments_dir attachments_root
             include_media fs of
        (Inl e, fs') \<Rightarrow> (Some e, written, fs')
      | (Inr (line, attachments), fs') \<Rightarrow>
          format_rows rows handle_identifier attachments_dir attachments_root include_media
            (written @ line @ [newline]) fs')"

definition text_path_of :: "path \<Rightarrow> string \<Rightarrow> path" where
  "text_path_of output_dir handle_identifier =
     join_str output_dir (sanitize_filename handle_identifier @ ''.txt'')"

definition attachments_dir_of :: "path \<Rightarrow> string \<Rightarrow> path" where
  "attachments_dir_of output_dir handle_identifier =
     join_str output_dir (sanitize_filename handle_identifier @ ''_attachments'')"

text \<open>Lines 236 to 244: the attachments directory is refused, or removed, when it exists.\<close>

definition prepare_attachments_dir :: "path option \<Rightarrow> bool \<Rightarrow> fs \<Rightarrow> pyerror + fs" where
  "prepare_attachments_dir attachments_dir overwrite fs =
     (case attachments_dir of
        None \<Rightarrow> Inr fs
      | Some d \<Rightarrow>
          if exists fs d \<and> \<not> overwrite then Inl FileExistsError
          else if exists fs d \<and> overwrite then rmtree fs d
          else Inr fs)"

definition export_for_contact ::
  "database \<Rightarrow> string \<Rightarrow> path \<Rightarrow> path option \<Rightarrow> bool \<Rightarrow> bool \<Rightarrow> fs
     \<Rightarrow> (pyerror + path) \<times> fs" where
  "export_for_contact connection handle_identifier output_dir attachments_root include_media
     overwrite fs =
     (let text_path = text_path_of output_dir handle_identifier
      in case ensure_output_path text_path overwrite fs of
           Inl e \<Rightarrow> (Inl e, fs)
         | Inr fs1 \<Rightarrow>
             let attachments_dir =
                   (if include_media then Some (attachments_dir_of output_dir handle_identifier)
                    else None)
             in case prepare_attachments_dir attachments_dir overwrite fs1 of
                  Inl e \<Rightarrow> (Inl e, fs1)
                | Inr fs2 \<Rightarrow>
                    let rows = fetch_messages connection handle_identifier
                    in if rows = [] then (Inl ValueError, fs2)
                       else case open_w fs2 text_path of
                              Inl e \<Rightarrow> (Inl e, fs2)
                            | Inr fs3 \<Rightarrow>
                                (case format_rows rows handle_identifier attachments_dir
                                        attachments_root include_media [] fs3 of
                                   (None, written, fs4) \<Rightarrow>
                                     (Inr text_path, (text_path, File written) # fs4)
                                 | (Some e, written, fs4) \<Rightarrow>
                                     (Inl e, (text_path, File written) # fs4)))"

text \<open>The loop of export\_chats: the first exception ends the run.\<close>

fun export_loop ::
  "database \<Rightarrow> path option \<Rightarrow> string list \<Rightarrow> path \<Rightarrow> bool \<Rightarrow> bool \<Rightarrow> path list \<Rightarrow> fs
     \<Rightarrow> (pyerror + path list) \<times> fs" where
  "export_loop connection attachments_root [] output_dir include_media overwrite exported fs =
     (Inr exported, fs)"
| "export_loop connection attachments_root (handle_identifier # contacts) output_dir
     include_media overwrite exported fs =
     (case export_for_contact connection handle_identifier output_dir attachments_root
             include_media overwrite fs of
        (Inl e, fs') \<Rightarrow> (Inl e, fs')
      | (Inr exported_path, fs') \<Rightarrow>
          export_loop connection attachments_root contacts output_dir include_media overwrite
            (exported @ [exported_path]) fs')"

definition export_chats ::
  "database \<Rightarrow> path option \<Rightarrow> string list \<Rightarrow> path \<Rightarrow> bool \<Rightarrow> bool \<Rightarrow> fs
     \<Rightarrow> (pyerror + path list) \<times> fs" where
  "export_chats connection attachments_root contacts output_dir include_media overwrite fs =
     export_loop connection attachments_root contacts output_dir include_media overwrite [] fs"

section \<open>Example data\<close>

definition empty_db :: database where
  "empty_db = \<lparr> message = [], handle = [], message_attachment_join = [], attachment = [] \<rparr>"


definition example_fs :: fs where
  "example_fs =
     [(Path ''/'' [], Dir), (Path ''/'' [''b''], Dir), (Path ''/'' [''b'', ''Library''], Dir),
      (Path ''/'' [''b'', ''Library'', ''SMS''], Dir),
      (Path ''/'' [''b'', ''Library'', ''SMS'', ''Attachments''], Dir),
      (Path ''/'' [''b'', ''Library'', ''SMS'', ''Attachments'', ''ab''], Dir),
      (Path ''/'' [''b'', ''Library'', ''SMS'', ''Attachments'', ''ab'', ''photo.jpg''],
       File ''JPEG1''),
      (Path ''/'' [''b'', ''ef''], Dir),
      (Path ''/'' [''b'', ''ef'', ''photo.jpg''], File ''JPEG2''),
      (Path ''/'' [''out''], Dir)]"

section \<open>Properties of sanitize\_filename\<close>

lemma allowed_underscore: "allowed (CHR ''_'')"
  by (simp add: allowed_def is_word_char_def code_def)


lemma sub_runs_allowed: "c \<in> set (sub_runs s) \<Longrightarrow> allowed c"
  by (induction s rule: sub_runs.induct) (auto simp: allowed_underscore split: if_splits)






section \<open>Properties of apple\_timestamp\_to\_datetime\<close>

lemma APPLE_EPOCH_us: "APPLE_EPOCH = Datetime 63113904000000000"
  by (simp add: APPLE_EPOCH_def datetime_ymd_def days_before_year_def days_before_month_def
      us_per_day_def)

lemma check_days_cases:
  "check_days us = Inl OverflowError \<or> check_days us = Inr (Timedelta us)"
  by (simp add: check_days_def)

lemma check_days_in_range:
  assumes "- 63113904000 \<le> i" and "i \<le> 10 ^ 12"
  shows "check_days (i * 1000000) = Inr (Timedelta (i * 1000000))"
proof -
  have "i div 86400 \<le> 1000000000000 div 86400"
    using assms(2) by (intro zdiv_mono1) auto
  moreover have "(- 63113904000) div 86400 \<le> i div 86400"
    using assms(1) by (intro zdiv_mono1) auto
  ultimately have "\<bar>i div 86400\<bar> \<le> 999999999" by simp
  then show ?thesis by (simp add: check_days_def us_per_day_def)
qed

lemma apple_of_int:
  assumes "i \<noteq> 0" and "i \<le> 10 ^ 12"
  shows "apple_timestamp_to_datetime (PyInt i) =
     (if - 63113904000 \<le> i \<and> i \<le> 252423993599
      then Inr (Some (datetime_plus_us APPLE_EPOCH (i * 1000000)))
      else Inl OverflowError)"
proof -
  have unfold: "apple_timestamp_to_datetime (PyInt i) =
      bind_err (check_days (i * 1000000))
        (\<lambda>delta. bind_err (datetime_add APPLE_EPOCH delta) (\<lambda>r. Inr (Some r)))"
    using assms by (simp add: apple_timestamp_to_datetime_def bind_err_def)
  show ?thesis
  proof (cases "- 63113904000 \<le> i")
    case True
    show ?thesis
      unfolding unfold check_days_in_range [OF True assms(2)]
      by (simp add: bind_err_def APPLE_EPOCH_us max_ordinal_def us_per_day_def)
  next
    case False
    then have neg: "63113904000000000 + i * 1000000 < 0" by simp
    from check_days_cases [of "i * 1000000"] show ?thesis
    proof
      assume "check_days (i * 1000000) = Inl OverflowError"
      then show ?thesis using False unfolding unfold by (simp add: bind_err_def)
    next
      assume "check_days (i * 1000000) = Inr (Timedelta (i * 1000000))"
      then show ?thesis using False neg unfolding unfold
        by (simp add: bind_err_def APPLE_EPOCH_us)
    qed
  qed
qed

lemma apple_coerced:
  "py_int v = Inr i \<Longrightarrow> apple_timestamp_to_datetime v = apple_timestamp_to_datetime (PyInt i)"
  by (cases "v = PyNone") (auto simp: apple_timestamp_to_datetime_def)

lemma apple_zero: "py_int v = Inr 0 \<Longrightarrow> apple_timestamp_to_datetime v = Inr None"
  by (cases "v = PyNone") (auto simp: apple_timestamp_to_datetime_def)

lemma apple_uncoercible:
  "py_int v = Inl TypeError \<or> py_int v = Inl ValueError \<Longrightarrow>
   apple_timestamp_to_datetime v = Inr None"
  by (cases "v = PyNone") (auto simp: apple_timestamp_to_datetime_def)

text \<open>
  C1 (as stated): every integer \<open>t\<close> with \<open>0 < t \<le> 10^12\<close> yields the Apple epoch plus \<open>t\<close>
  seconds. At \<open>t = 10^12\<close> the sum lies beyond the year 9999 and the addition raises
  OverflowError.
\<close>

theorem C1_counterexample:
  "apple_timestamp_to_datetime (PyInt (10 ^ 12)) = Inl OverflowError"
  using apple_of_int [of "10 ^ 12"] by simp

text \<open>
  C1 (amended): \<open>None\<close>, an input that \<open>int()\<close> coerces to zero, and an input on which
  \<open>int()\<close> raises TypeError or ValueError all yield the unknown marker without raising.
  An integer \<open>t > 10^12\<close> yields the Apple epoch plus \<open>timedelta(seconds = t / 10^9)\<close>, the
  quotient taken in float arithmetic and the timedelta rounded to whole microseconds
  (OverflowError when a step leaves the range of its type). An integer \<open>t\<close> with
  \<open>0 < t \<le> 252423993599\<close> yields the Apple epoch plus \<open>t\<close> seconds; an integer \<open>t\<close> with
  \<open>252423993599 < t \<le> 10^12\<close> raises OverflowError, the instant lying after the year 9999.
\<close>

theorem C1_apple_timestamp:
  "apple_timestamp_to_datetime PyNone = Inr None
   \<and> (py_int v = Inr 0 \<longrightarrow> apple_timestamp_to_datetime v = Inr None)
   \<and> (py_int v = Inl TypeError \<or> py_int v = Inl ValueError \<longrightarrow>
        apple_timestamp_to_datetime v = Inr None)
   \<and> (10 ^ 12 < t \<longrightarrow>
        apple_timestamp_to_datetime (PyInt t) =
          bind_err (py_truediv t 1000000000) (\<lambda>f.
            bind_err (timedelta_seconds (NumFloat f)) (\<lambda>delta.
              bind_err (datetime_add APPLE_EPOCH delta) (\<lambda>r. Inr (Some r)))))
   \<and> (0 < t \<and> t \<le> 252423993599 \<longrightarrow>
        apple_timestamp_to_datetime (PyInt t) =
          Inr (Some (datetime_plus_us APPLE_EPOCH (t * 1000000))))
   \<and> (252423993599 < t \<and> t \<le> 10 ^ 12 \<longrightarrow>
        apple_timestamp_to_datetime (PyInt t) = Inl OverflowError)"
proof -
  have a: "apple_timestamp_to_datetime PyNone = Inr None"
    by (simp add: apple_timestamp_to_datetime_def)
  have d: "10 ^ 12 < t \<longrightarrow>
        apple_timestamp_to_datetime (PyInt t) =
          bind_err (py_truediv t 1000000000) (\<lambda>f.
            bind_err (timedelta_seconds (NumFloat f)) (\<lambda>delta.
              bind_err (datetime_add APPLE_EPOCH delta) (\<lambda>r. Inr (Some r))))"
    by (auto simp: apple_timestamp_to_datetime_def bind_err_def split: sum.splits)
  have e: "0 < t \<and> t \<le> 252423993599 \<longrightarrow>
        apple_timestamp_to_datetime (PyInt t) =
          Inr (Some (datetime_plus_us APPLE_EPOCH (t * 1000000)))"
    using apple_of_int [of t] by simp
  have f: "252423993599 < t \<and> t \<le> 10 ^ 12 \<longrightarrow>
        apple_timestamp_to_datetime (PyInt t) = Inl OverflowError"
    using apple_of_int [of t] by simp
  show ?thesis
    using a d e f apple_zero [of v] apple_uncoercible [of v] by blast
qed

theorem C1_apple_timestamp_witness:
  "apple_timestamp_to_datetime (PyStr ''0'') = Inr None
   \<and> apple_timestamp_to_datetime (PyFloat NaN) = Inr None
   \<and> apple_timestamp_to_datetime (PyStr ''12:30'') = Inr None
   \<and> apple_timestamp_to_datetime (PyInt 700000000123456789) =
       Inr (Some (Datetime 63813904000123457))
   \<and> apple_timestamp_to_datetime (PyInt 700000000) = Inr (Some (Datetime 63813904000000000))
   \<and> apple_timestamp_to_datetime (PyInt 252423993600) = Inl OverflowError"
proof -
  have z: "py_int (PyStr ''0'') = Inr 0" by code_simp
  have n: "py_int (PyFloat NaN) = Inl ValueError" by simp
  have s: "py_int (PyStr ''12:30'') = Inl ValueError" by code_simp
  have rd: "round_double (700000000123456789 / 1000000000) = 5872025601035631 / 8388608"
    by code_simp
  have q: "py_truediv 700000000123456789 1000000000 = Inr (5872025601035631 / 8388608)"
    by (simp add: py_truediv_def rd)
  have td: "timedelta_seconds (NumFloat (5872025601035631 / 8388608)) =
      Inr (Timedelta 700000000123457)"
    by code_simp
  have ns: "bind_err (py_truediv 700000000123456789 1000000000) (\<lambda>f.
            bind_err (timedelta_seconds (NumFloat f)) (\<lambda>delta.
              bind_err (datetime_add APPLE_EPOCH delta) (\<lambda>r. Inr (Some r))))
        = Inr (Some (Datetime 63813904000123457))"
    unfolding bind_err_def q sum.case td
    by (simp add: APPLE_EPOCH_us max_ordinal_def us_per_day_def)
  show ?thesis
    using C1_apple_timestamp [of "PyStr ''0''" 700000000123456789]
      C1_apple_timestamp [of "PyFloat NaN" 700000000]
      C1_apple_timestamp [of "PyStr ''12:30''" 252423993600] z n s ns
    by (simp add: APPLE_EPOCH_us)
qed

text \<open>
  C10 (as stated): every negative integer input yields the Apple epoch plus \<open>v\<close> seconds.
  One second before 0001-01-01T00:00:00 the addition raises OverflowError.
\<close>

theorem C10_counterexample:
  "apple_timestamp_to_datetime (PyInt (- 63113904001)) = Inl OverflowError"
  using apple_of_int [of "- 63113904001"] by simp

text \<open>
  C10 (amended): the input is classified only after \<open>int()\<close> has truncated it: whenever
  \<open>int(v)\<close> returns \<open>i\<close>, the result on \<open>v\<close> is the result on \<open>i\<close>; a float \<open>q\<close> with
  \<open>0 < |q| < 1\<close> truncates to zero and yields the unknown marker; a negative integer
  \<open>i \<ge> -63113904000\<close> yields the Apple epoch plus \<open>i\<close> seconds, a datetime before
  2001-01-01, not the unknown marker; a negative integer below \<open>-63113904000\<close> raises
  OverflowError, the instant lying before the year 1.
\<close>

theorem C10_truncation:
  "(py_int v = Inr i \<longrightarrow> apple_timestamp_to_datetime v = apple_timestamp_to_datetime (PyInt i))
   \<and> (0 < \<bar>q\<bar> \<and> \<bar>q\<bar> < 1 \<longrightarrow>
        py_int (PyFloat (Finite q)) = Inr 0
        \<and> apple_timestamp_to_datetime (PyFloat (Finite q)) = Inr None)
   \<and> (- 63113904000 \<le> i \<and> i < 0 \<longrightarrow>
        apple_timestamp_to_datetime (PyInt i) =
          Inr (Some (datetime_plus_us APPLE_EPOCH (i * 1000000)))
        \<and> (\<exists>a b. APPLE_EPOCH = Datetime a
              \<and> datetime_plus_us APPLE_EPOCH (i * 1000000) = Datetime b \<and> 0 \<le> b \<and> b < a))
   \<and> (i < - 63113904000 \<longrightarrow> apple_timestamp_to_datetime (PyInt i) = Inl OverflowError)"
proof -
  have a: "py_int v = Inr i \<longrightarrow>
      apple_timestamp_to_datetime v = apple_timestamp_to_datetime (PyInt i)"
    using apple_coerced by blast
  have b: "0 < \<bar>q\<bar> \<and> \<bar>q\<bar> < 1 \<longrightarrow>
        py_int (PyFloat (Finite q)) = Inr 0
        \<and> apple_timestamp_to_datetime (PyFloat (Finite q)) = Inr None"
  proof
    assume h: "0 < \<bar>q\<bar> \<and> \<bar>q\<bar> < 1"
    have "trunc q = 0"
    proof (cases "0 \<le> q")
      case True
      then have "\<lfloor>q\<rfloor> = 0" using h by (intro floor_unique) auto
      then show ?thesis using True by (simp add: trunc_def)
    next
      case False
      then have "\<lceil>q\<rceil> = 0" using h by (intro ceiling_unique) auto
      then show ?thesis using False by (simp add: trunc_def)
    qed
    then have "py_int (PyFloat (Finite q)) = Inr 0" by simp
    then show "py_int (PyFloat (Finite q)) = Inr 0
        \<and> apple_timestamp_to_datetime (PyFloat (Finite q)) = Inr None"
      using apple_zero by blast
  qed
  have c: "- 63113904000 \<le> i \<and> i < 0 \<longrightarrow>
        apple_timestamp_to_datetime (PyInt i) =
          Inr (Some (datetime_plus_us APPLE_EPOCH (i * 1000000)))
        \<and> (\<exists>a b. APPLE_EPOCH = Datetime a
              \<and> datetime_plus_us APPLE_EPOCH (i * 1000000) = Datetime b \<and> 0 \<le> b \<and> b < a)"
    using apple_of_int [of i] by (simp add: APPLE_EPOCH_us)
  have d: "i < - 63113904000 \<longrightarrow> apple_timestamp_to_datetime (PyInt i) = Inl OverflowError"
    using apple_of_int [of i] by simp
  show ?thesis using a b c d by blast
qed

theorem C10_truncation_witness:
  "apple_timestamp_to_datetime (PyFloat (Finite (7 / 2))) = apple_timestamp_to_datetime (PyInt 3)
   \<and> apple_timestamp_to_datetime (PyFloat (Finite (- 1 / 2))) = Inr None
   \<and> apple_timestamp_to_datetime (PyInt (- 86400)) = Inr (Some (Datetime 63113817600000000))
   \<and> apple_timestamp_to_datetime (PyInt (- 100000000000)) = Inl OverflowError"
proof -
  have t: "py_int (PyFloat (Finite (7 / 2))) = Inr 3" by code_simp
  show ?thesis
    using C10_truncation [of "PyFloat (Finite (7 / 2))" 3 "- 1 / 2"]
      C10_truncation [of PyNone "- 86400" 0] C10_truncation [of PyNone "- 100000000000" 0] t
    by (simp add: APPLE_EPOCH_us)
qed

section \<open>Properties of resolve\_attachment\_path\<close>







section \<open>Properties of the file system and of the output paths\<close>

lemma lookup_Cons: "lookup ((p, n) # fs) q = (if q = p then Some n else lookup fs q)"
  by (simp add: lookup_def)

lemma lookup_rmtree_filter:
  "lookup (filter (\<lambda>(q, n). \<not> is_under d q) fs) q = (if is_under d q then None else lookup fs q)"
  by (induction fs) (auto simp: lookup_def)


lemma os_mkdir_Inr:
  "os_mkdir fs p = Inr fs' \<Longrightarrow> fs' = (p, Dir) # fs \<and> \<not> exists fs p"
  by (auto simp: os_mkdir_def split: option.splits node.splits if_splits)

lemma mkdir_exist_ok_Inr:
  "mkdir_exist_ok fs p = Inr fs' \<Longrightarrow> fs' = fs \<or> (fs' = (p, Dir) # fs \<and> \<not> exists fs p)"
  by (auto simp: mkdir_exist_ok_def dest: os_mkdir_Inr split: sum.splits if_splits)

lemma is_under_refl: "is_under p p"
  by (simp add: is_under_def)

lemma is_under_parent: "is_under q (parent p) \<Longrightarrow> is_under q p"
proof -
  assume a: "is_under q (parent p)"
  then have t: "take (length (names q)) (butlast (names p)) = names q"
    and r: "root p = root q"
    by (auto simp: is_under_def parent_def)
  obtain zs where zs: "butlast (names p) = names q @ zs"
    using t by (metis append_take_drop_id)
  show ?thesis
  proof (cases "names p = []")
    case True
    then show ?thesis using zs r by (simp add: is_under_def)
  next
    case False
    then have "names p = names q @ zs @ [last (names p)]"
      using zs by (metis append_butlast_last_id append_assoc)
    then have "take (length (names q)) (names p) = names q"
      by (metis append_eq_conv_conj)
    then show ?thesis using r by (simp add: is_under_def)
  qed
qed

lemma adds_dirs_refl: "adds_dirs fs fs p"
  by (simp add: adds_dirs_def)

lemma adds_dirs_Cons: "\<not> exists fs p \<Longrightarrow> adds_dirs fs ((p, Dir) # fs) p"
  by (auto simp: adds_dirs_def lookup_Cons exists_def is_under_refl)

lemma adds_dirs_trans:
  "adds_dirs fs fs1 (parent p) \<Longrightarrow> adds_dirs fs1 fs2 p \<Longrightarrow> adds_dirs fs fs2 p"
  unfolding adds_dirs_def by (metis is_under_parent)

lemma mkdir_parents_adds:
  "mkdir_parents fs p = Inr fs' \<Longrightarrow> adds_dirs fs fs' p"
proof (induction fs p arbitrary: fs' rule: mkdir_parents.induct)
  case (1 fs p)
  show ?case
  proof (cases "os_mkdir fs p")
    case (Inr fs1)
    then have "fs' = fs1" using "1.prems" by (subst (asm) mkdir_parents.simps) simp
    then show ?thesis using os_mkdir_Inr [OF Inr] adds_dirs_Cons by simp
  next
    case (Inl e)
    show ?thesis
    proof (cases "e = FileNotFoundError")
      case True
      then have ne: "names p \<noteq> []"
        using "1.prems" Inl by (subst (asm) mkdir_parents.simps) (auto split: if_splits)
      then obtain fs1 where rec: "mkdir_parents fs (parent p) = Inr fs1"
        and last: "mkdir_exist_ok fs1 p = Inr fs'"
        using "1.prems" Inl True
        by (subst (asm) mkdir_parents.simps) (auto simp: bind_err_def split: sum.splits)
      have a: "adds_dirs fs fs1 (parent p)"
        using "1.IH" [OF Inl True ne rec] .
      have b: "adds_dirs fs1 fs' p"
        using mkdir_exist_ok_Inr [OF last] adds_dirs_refl adds_dirs_Cons by auto
      show ?thesis using a b by (rule adds_dirs_trans)
    next
      case False
      then have "fs' = fs"
        using "1.prems" Inl by (subst (asm) mkdir_parents.simps) (auto split: if_splits)
      then show ?thesis by (simp add: adds_dirs_refl)
    qed
  qed
qed


lemma sanitize_allowed: "c \<in> set (sanitize_filename h) \<Longrightarrow> allowed c"
proof -
  assume c: "c \<in> set (sanitize_filename h)"
  have "\<forall>c \<in> set ''contact''. allowed c"
    by (simp add: allowed_def is_word_char_def code_def)
  then show ?thesis
    using c sub_runs_allowed by (auto simp: sanitize_filename_def Let_def split: if_splits)
qed

lemma sanitize_nonempty: "sanitize_filename h \<noteq> []"
  by (simp add: sanitize_filename_def Let_def)

lemma allowed_no_slash: "allowed c \<Longrightarrow> c \<noteq> CHR ''/''"
  by (auto simp: allowed_def is_word_char_def code_def)

lemma split_slash_plain_all: "CHR ''/'' \<notin> set s \<Longrightarrow> split_slash s = [s]"
  using split_slash_plain [of s "[]"] by simp

lemma parse_plain:
  assumes "CHR ''/'' \<notin> set s" and "s \<noteq> []" and "s \<noteq> ''.''"
  shows "parse_path s = Path [] [s]"
proof -
  have "names_of s = [s]"
    using assms by (simp add: names_of_def split_slash_plain_all is_component_def)
  moreover have "root_of s = []"
    using assms by (cases s) (auto simp: root_of_def)
  ultimately show ?thesis by (simp add: parse_path_def)
qed

lemma join_plain:
  assumes "CHR ''/'' \<notin> set s" and "s \<noteq> []" and "s \<noteq> ''.''"
  shows "join_str d s = Path (root d) (names d @ [s])"
  using parse_plain [OF assms] by (simp add: join_str_def joinpath_def)

lemma sanitized_plain: "CHR ''/'' \<notin> set (sanitize_filename h)"
  using sanitize_allowed allowed_no_slash by blast

lemma text_path_eq:
  "text_path_of output_dir h =
     Path (root output_dir) (names output_dir @ [sanitize_filename h @ ''.txt''])"
  unfolding text_path_of_def
  by (rule join_plain) (simp_all add: sanitized_plain)

lemma attachments_dir_eq:
  "attachments_dir_of output_dir h =
     Path (root output_dir) (names output_dir @ [sanitize_filename h @ ''_attachments''])"
  unfolding attachments_dir_of_def
  by (rule join_plain) (simp_all add: sanitized_plain)

lemma parent_text_path: "parent (text_path_of output_dir h) = output_dir"
  by (simp add: text_path_eq parent_def)


lemma text_path_not_under_parent:
  "\<not> is_under (text_path_of output_dir h) output_dir"
  by (simp add: text_path_eq is_under_def)

lemma text_path_not_under_attachments:
  "\<not> is_under (attachments_dir_of output_dir h) (text_path_of output_dir h)"
  by (simp add: text_path_eq attachments_dir_eq is_under_def)

lemma ensure_output_path_lookup:
  assumes "ensure_output_path (text_path_of output_dir h) overwrite fs = Inr fs1"
  shows "lookup fs1 (text_path_of output_dir h) = lookup fs (text_path_of output_dir h)"
proof -
  have "mkdir_parents fs output_dir = Inr fs1"
    using assms by (auto simp: ensure_output_path_def parent_text_path split: if_splits)
  then have "adds_dirs fs fs1 output_dir" by (rule mkdir_parents_adds)
  then show ?thesis
    using text_path_not_under_parent [of output_dir h] unfolding adds_dirs_def by metis
qed

lemma prepare_attachments_dir_lookup:
  assumes "prepare_attachments_dir d overwrite fs1 = Inr fs2"
    and "d = None \<or> d = Some (attachments_dir_of output_dir h)"
  shows "lookup fs2 (text_path_of output_dir h) = lookup fs1 (text_path_of output_dir h)"
proof (cases d)
  case None
  then show ?thesis using assms by (simp add: prepare_attachments_dir_def)
next
  case (Some a)
  then have a: "a = attachments_dir_of output_dir h" using assms(2) by simp
  show ?thesis
  proof (cases "exists fs1 a")
    case True
    then have "rmtree fs1 a = Inr fs2"
      using assms(1) Some by (auto simp: prepare_attachments_dir_def split: if_splits)
    then have "fs2 = filter (\<lambda>(q, n). \<not> is_under a q) fs1"
      by (auto simp: rmtree_def split: option.splits node.splits)
    then show ?thesis
      using text_path_not_under_attachments [of output_dir h] a
      by (simp add: lookup_rmtree_filter)
  next
    case False
    then show ?thesis using assms(1) Some by (simp add: prepare_attachments_dir_def)
  qed
qed

section \<open>Properties of export\_for\_contact\<close>

text \<open>
  C6: when the transcript file of a contact already exists and overwrite is not
  requested, export\_for\_contact raises FileExistsError before anything is created,
  opened or written: the file system it leaves behind is the one it found, so the
  existing file keeps its content; the run (export\_chats) ends with that error.
\<close>

theorem C6_output_exists:
  assumes "exists fs (text_path_of output_dir h)"
  shows "export_for_contact db h output_dir attachments_root include_media False fs
           = (Inl FileExistsError, fs)
         \<and> export_loop db attachments_root (h # contacts) output_dir include_media False
             exported fs = (Inl FileExistsError, fs)
         \<and> export_chats db attachments_root (h # contacts) output_dir include_media False fs
             = (Inl FileExistsError, fs)"
proof -
  have "export_for_contact db h output_dir attachments_root include_media False fs
           = (Inl FileExistsError, fs)"
    using assms by (simp add: export_for_contact_def ensure_output_path_def)
  then show ?thesis by (simp add: export_chats_def)
qed

theorem C6_output_exists_witness:
  "exists [(Path ''/'' [''out'', ''a.txt''], File ''old''), (Path ''/'' [''out''], Dir),
           (Path ''/'' [], Dir)] (Path ''/'' [''out'', ''a.txt''])
   \<and> export_for_contact empty_db ''a'' (Path ''/'' [''out'']) None False False
       [(Path ''/'' [''out'', ''a.txt''], File ''old''), (Path ''/'' [''out''], Dir),
        (Path ''/'' [], Dir)]
     = (Inl FileExistsError,
        [(Path ''/'' [''out'', ''a.txt''], File ''old''), (Path ''/'' [''out''], Dir),
         (Path ''/'' [], Dir)])"
proof -
  have tp: "text_path_of (Path ''/'' [''out'']) ''a'' = Path ''/'' [''out'', ''a.txt'']"
    by code_simp
  have ex: "exists [(Path ''/'' [''out'', ''a.txt''], File ''old''), (Path ''/'' [''out''], Dir),
           (Path ''/'' [], Dir)] (text_path_of (Path ''/'' [''out'']) ''a'')"
    unfolding tp by code_simp
  show ?thesis
    using C6_output_exists [OF ex, of empty_db None False "[]" "[]"] ex unfolding tp by simp
qed

text \<open>
  C5: when the query returns no row for a contact, export\_for\_contact ends with an
  exception, never with a transcript path; the entry of the transcript path is what it was
  before the call (no file is created, an existing one is not touched); and when the
  preparation of the output path and of the attachments directory succeeds, the
  exception is the no-data error (ValueError).
\<close>

theorem C5_no_data:
  assumes "fetch_messages db h = []"
  shows "(\<exists>e. fst (export_for_contact db h output_dir attachments_root include_media overwrite fs)
              = Inl e)
         \<and> lookup (snd (export_for_contact db h output_dir attachments_root include_media
                          overwrite fs)) (text_path_of output_dir h)
             = lookup fs (text_path_of output_dir h)
         \<and> (\<forall>fs1 fs2.
               ensure_output_path (text_path_of output_dir h) overwrite fs = Inr fs1
               \<and> prepare_attachments_dir
                   (if include_media then Some (attachments_dir_of output_dir h) else None)
                   overwrite fs1 = Inr fs2
               \<longrightarrow> export_for_contact db h output_dir attachments_root include_media overwrite fs
                     = (Inl ValueError, fs2))"
proof (cases "ensure_output_path (text_path_of output_dir h) overwrite fs")
  case (Inl e)
  then show ?thesis by (simp add: export_for_contact_def)
next
  case (Inr fs1)
  note e1 = ensure_output_path_lookup [OF Inr]
  let ?d = "if include_media then Some (attachments_dir_of output_dir h) else None"
  show ?thesis
  proof (cases "prepare_attachments_dir ?d overwrite fs1")
    case (Inl e)
    then show ?thesis using Inr e1 by (simp add: export_for_contact_def)
  next
    case (Inr fs2)
    have "lookup fs2 (text_path_of output_dir h) = lookup fs1 (text_path_of output_dir h)"
      using Inr by (rule prepare_attachments_dir_lookup) simp
    then show ?thesis
      using \<open>ensure_output_path (text_path_of output_dir h) overwrite fs = Inr fs1\<close> Inr e1 assms
      by (simp add: export_for_contact_def)
  qed
qed

theorem C5_no_data_witness:
  "fetch_messages empty_db ''a'' = []
   \<and> export_for_contact empty_db ''a'' (Path ''/'' [''out'']) None False False
       [(Path ''/'' [''out''], Dir), (Path ''/'' [], Dir)]
     = (Inl ValueError, [(Path ''/'' [''out''], Dir), (Path ''/'' [], Dir)])
   \<and> lookup [(Path ''/'' [''out''], Dir), (Path ''/'' [], Dir)]
       (Path ''/'' [''out'', ''a.txt'']) = None"
proof -
  have f: "fetch_messages empty_db ''a'' = []" by code_simp
  have tp: "text_path_of (Path ''/'' [''out'']) ''a'' = Path ''/'' [''out'', ''a.txt'']"
    by code_simp
  have e: "ensure_output_path (Path ''/'' [''out'', ''a.txt'']) False
             [(Path ''/'' [''out''], Dir), (Path ''/'' [], Dir)]
           = Inr [(Path ''/'' [''out''], Dir), (Path ''/'' [], Dir)]"
    by code_simp
  have l: "lookup [(Path ''/'' [''out''], Dir), (Path ''/'' [], Dir)]
       (Path ''/'' [''out'', ''a.txt'']) = None"
    by code_simp
  show ?thesis
    using C5_no_data [OF f, of "Path ''/'' [''out'']" None False False
        "[(Path ''/'' [''out''], Dir), (Path ''/'' [], Dir)]"] f e l
    unfolding tp by (simp add: prepare_attachments_dir_def)
qed



section \<open>Properties of fetch\_messages\<close>



















section \<open>Properties of the attachment copy\<close>

lemma unique_destination_fresh:
  "\<not> exists fs (unique_destination fs d b e dest k)"
proof (induction fs d b e dest k rule: unique_destination.induct)
  case (1 fs d b e dest k)
  show ?case
  proof (cases "exists fs dest")
    case True
    then show ?thesis using 1 by (subst unique_destination.simps) simp
  next
    case False
    then show ?thesis by (subst unique_destination.simps) simp
  qed
qed

lemma unique_destination_cases:
  "(\<not> exists fs dest \<and> unique_destination fs d b e dest k = dest)
   \<or> (exists fs dest \<and> (\<exists>j \<ge> k. unique_destination fs d b e dest k = numbered d b e j))"
proof (induction fs d b e dest k rule: unique_destination.induct)
  case (1 fs d b e dest k)
  show ?case
  proof (cases "exists fs dest")
    case True
    then have u: "unique_destination fs d b e dest k
        = unique_destination fs d b e (numbered d b e k) (Suc k)"
      by (subst unique_destination.simps) simp
    from "1" [OF True] show ?thesis
    proof
      assume "\<not> exists fs (numbered d b e k)
          \<and> unique_destination fs d b e (numbered d b e k) (Suc k) = numbered d b e k"
      then show ?thesis using True u by auto
    next
      assume "exists fs (numbered d b e k)
          \<and> (\<exists>j\<ge>Suc k. unique_destination fs d b e (numbered d b e k) (Suc k)
                = numbered d b e j)"
      then obtain j where "Suc k \<le> j"
        "unique_destination fs d b e (numbered d b e k) (Suc k) = numbered d b e j" by blast
      then show ?thesis using True u by (auto intro: exI [of _ j])
    qed
  next
    case False
    then show ?thesis by (subst unique_destination.simps) simp
  qed
qed

lemma adds_dirs_extends: "adds_dirs fs fs' p \<Longrightarrow> extends fs fs'"
  unfolding adds_dirs_def extends_def by (metis option.distinct(1))

lemma extends_refl: "extends fs fs"
  by (simp add: extends_def)

lemma extends_trans: "extends a b \<Longrightarrow> extends b c \<Longrightarrow> extends a c"
  by (simp add: extends_def)

lemma extends_exists: "extends fs fs' \<Longrightarrow> exists fs q \<Longrightarrow> exists fs' q"
  by (auto simp: extends_def exists_def)

lemma extends_Cons: "\<not> exists fs p \<Longrightarrow> extends fs ((p, n) # fs)"
  by (auto simp: extends_def exists_def lookup_Cons)

lemma copy2_fresh:
  assumes "copy2 fs src dst = Inr fs'" and "\<not> exists fs dst"
  shows "\<exists>c. lookup fs src = Some (File c) \<and> fs' = (dst, File c) # (dst, File []) # fs"
proof -
  have nd: "\<not> is_dir fs dst" using assms(2) by (simp add: is_dir_def exists_def)
  then show ?thesis
    using assms(1)
    by (auto simp: copy2_def open_w_def Let_def split: option.splits node.splits if_splits sum.splits)
qed

lemma copy_attachment_Inr:
  assumes "copy_attachment row d src fs = (Inr n, fs')"
  shows "\<exists>fs1 dest c.
           mkdir_parents fs d = Inr fs1
           \<and> dest = unique_destination fs1 d (stem (join_str d (destination_name_of row src)))
                      (suffix (join_str d (destination_name_of row src)))
                      (join_str d (destination_name_of row src)) 1
           \<and> n = name dest \<and> \<not> exists fs dest \<and> lookup fs src = Some (File c)
           \<and> fs' = (dest, File c) # (dest, File []) # fs1 \<and> extends fs fs1"
proof -
  obtain fs1 where m: "mkdir_parents fs d = Inr fs1"
    using assms by (auto simp: copy_attachment_def split: sum.splits)
  let ?D = "join_str d (destination_name_of row src)"
  let ?dest = "unique_destination fs1 d (stem ?D) (suffix ?D) ?D 1"
  have c: "copy2 fs1 src ?dest = Inr fs'" and n: "n = name ?dest"
    using assms m by (auto simp: copy_attachment_def Let_def split: sum.splits)
  have fresh1: "\<not> exists fs1 ?dest" by (rule unique_destination_fresh)
  obtain c where c1: "lookup fs1 src = Some (File c)"
    and fs': "fs' = (?dest, File c) # (?dest, File []) # fs1"
    using copy2_fresh [OF c fresh1] by blast
  have ad: "adds_dirs fs fs1 d" using m by (rule mkdir_parents_adds)
  then have ext: "extends fs fs1" by (rule adds_dirs_extends)
  have fresh: "\<not> exists fs ?dest" using fresh1 ext extends_exists by blast
  have "lookup fs src = Some (File c)"
    using ad c1 unfolding adds_dirs_def by (metis node.distinct(1) option.inject)
  then show ?thesis using m n fresh fs' ext by blast
qed

lemma copy_attachment_extends:
  "copy_attachment row d src fs = (r, fs') \<Longrightarrow> extends fs fs'"
proof (cases r)
  case (Inl e)
  assume a: "copy_attachment row d src fs = (r, fs')"
  show ?thesis
  proof (cases "mkdir_parents fs d")
    case (Inl e')
    then show ?thesis using a by (simp add: copy_attachment_def extends_refl)
  next
    case (Inr fs1)
    then have "fs' = fs1"
      using a Inl by (auto simp: copy_attachment_def Let_def split: sum.splits)
    then show ?thesis using mkdir_parents_adds [OF Inr] adds_dirs_extends by blast
  qed
next
  case (Inr n)
  assume a: "copy_attachment row d src fs = (r, fs')"
  then obtain fs1 dest c where e: "extends fs fs1" and f: "\<not> exists fs dest"
    and fs': "fs' = (dest, File c) # (dest, File []) # fs1"
    using copy_attachment_Inr [of row d src fs n fs'] Inr by blast
  have "\<And>q m. lookup fs q = Some m \<Longrightarrow> q \<noteq> dest"
    using f by (auto simp: exists_def)
  then show ?thesis using e unfolding fs' extends_def by (simp add: lookup_Cons)
qed

lemma format_message_extends:
  "format_message row h ad ar im fs = (r, fs') \<Longrightarrow> extends fs fs'"
  by (auto simp: format_message_def Let_def extends_refl dest: copy_attachment_extends
      split: sum.splits option.splits prod.splits)

lemma format_rows_extends:
  "format_rows rows h ad ar im written fs = (r, out, fs') \<Longrightarrow> extends fs fs'"
proof (induction rows arbitrary: written fs)
  case Nil
  then show ?case by (simp add: extends_refl)
next
  case (Cons row rows)
  obtain res fs1 where fm: "format_message row h ad ar im fs = (res, fs1)"
    by (cases "format_message row h ad ar im fs") auto
  have e1: "extends fs fs1" using fm by (rule format_message_extends)
  show ?case
  proof (cases res)
    case (Inl e)
    then have "fs' = fs1" using Cons.prems fm by simp
    then show ?thesis using e1 by simp
  next
    case (Inr la)
    then obtain line atts where "la = (line, atts)" by (cases la) auto
    then have "format_rows rows h ad ar im (written @ line @ [newline]) fs1 = (r, out, fs')"
      using Cons.prems fm Inr by simp
    then have "extends fs1 fs'" by (rule Cons.IH)
    then show ?thesis using e1 extends_trans by blast
  qed
qed

end
